theory Spec2Isabelle
  imports Main
begin

section \<open>The encoder widget chain of deen (deen/widgets/encoder.py)\<close>

text \<open>
  The module keeps an ordered list of \<open>DeenWidget\<close> objects in
  \<open>EncoderWidget.widgets\<close>. The first one is the root, every further one holds
  the output of a transformer applied to its predecessor. This theory embeds the handlers
  of \<open>DeenWidget\<close> that read and change this list: \<open>content\<close> (setter),
  \<open>has_previous\<close>, \<open>has_next\<close>, \<open>previous\<close>, \<open>next\<close>,
  \<open>field_content_changed\<close>, \<open>view_text\<close>, \<open>view_hex\<close>,
  \<open>clear_content\<close>, \<open>move_content_to_root\<close>, \<open>remove_next_widgets\<close>,
  \<open>set_content_next\<close>, \<open>set_error_next\<close>, \<open>action\<close>, and
  \<open>EncoderWidget.set_root_content\<close>.

  Conventions of the embedding.
  \<^item> A widget is referred to by its position in \<open>widgets\<close>: every widget object is
    appended to the list exactly once, so \<open>w == self\<close> and
    \<open>widgets.index(w)\<close> compare and find positions. A handler takes the position
    \<open>i\<close> of \<open>self\<close>.
  \<^item> The Qt objects a widget owns are flattened into fields of the record: the read-only
    flag, the plain text and the style sheet of \<open>text_field\<close>, the content of
    \<open>hex_field\<close>, the current index of each combo box, the texts of the labels.
  \<^item> Qt gives the keyboard focus to at most one widget of the application. The state
    records the position of the \<open>DeenWidget\<close> whose text field or hex field has
    it, if any; \<open>hex_field.hasFocus() or text_field.hasFocus()\<close> of widget
    \<open>i\<close> reads \<open>focus c = Some i\<close>.
  \<^item> What \<open>deen.core\<close> and \<open>deen.transformers.core\<close> provide (the name
    tables and the transformers), the text codec and the presence of the OpenSSL module are
    the fields of an environment record that every handler takes as a parameter.
  \<^item> Signals are delivered synchronously, inside the call that emits them.
    \<open>text_field.textChanged\<close> is connected to \<open>field_content_changed\<close>
    (line 47), so every \<open>setPlainText\<close> and \<open>clear\<close> of a text field
    runs \<open>field_content_changed\<close> of the widget that owns the field before it
    returns. Every handler whose body can emit this signal takes the delivery as its first
    parameter \<open>ev\<close>; \<open>textChanged n E\<close> below is the delivery itself, with
    \<open>n\<close> the number of deliveries that may still nest before the interpreter
    raises \<open>RecursionError\<close>. \<open>current_combo.setCurrentIndex(0)\<close> emits
    \<open>currentIndexChanged\<close> when the index changes, which runs
    \<open>action(combo)\<close> up to its return at line 416.
  \<^item> \<open>HexViewWidget\<close> is not part of this module. Its \<open>content\<close>
    setter is taken to store the bytes; \<open>bytesChanged\<close> is the signal of an edit
    made by the user in the hex table.
  \<^item> The functions \<open>user_edit_text\<close>, \<open>user_edit_hex\<close> and
    \<open>user_select\<close> below are the events a user causes.
  \<^item> A raise of the Python code is the value \<open>Inl e\<close>; a handler that returns
    yields \<open>Inr\<close> of the new state.
\<close>

subsection \<open>Data\<close>

type_synonym bytes = "char list"

text \<open>A Python \<open>str\<close> shown in a text field: its code points.\<close>

type_synonym unicode = "nat list"

datatype py_error = AssertionError | TypeError | ValueError | IndexError | AttributeError
  | RecursionError

text \<open>
  The values handed to \<open>set_content_next\<close> and \<open>set_root_content\<close>:
  \<open>bytes\<close>, \<open>str\<close>, \<open>bytearray\<close>, or \<open>None\<close>.
\<close>

datatype py_data = Bytes bytes | Str unicode | ByteArray bytes | NoneVal

text \<open>The six combo boxes of the action panel (\<open>create_action_panel\<close>).\<close>

datatype combo = EncodingCombo | DecodingCombo | CompressCombo | UncompressCombo
  | HashCombo | MiscCombo

record widget =
  readonly :: bool
  current_pick :: "string option"
  current_combo :: "combo option"
  content :: bytes
  hex_view :: bool
  text_readOnly :: bool
  text_plainText :: unicode
  text_styleSheet :: string
  text_hidden :: bool
  hex_content :: bytes
  hex_read_only :: bool
  hex_hidden :: bool
  action_panel_hidden :: bool
  length_field :: nat
  readonly_field :: string
  codec_field :: string
  codec_field_hidden :: bool
  combo_index :: "combo \<Rightarrow> nat"

text \<open>
  \<open>content\<close> is the attribute \<open>_content\<close>; \<open>length_field\<close> is the
  number shown after \<open>Length:\<close>; \<open>combo_index w cb\<close> is
  \<open>currentIndex()\<close> of the combo box \<open>cb\<close> of \<open>w\<close>.
\<close>

record chain =
  widgets :: "widget list"
  logged :: "string list"
  focus :: "nat option"

text \<open>
  \<open>logged\<close> collects what is passed to \<open>LOGGER.error\<close>. The delivery of
  \<open>textChanged\<close> of the text field of the widget at a position:
\<close>

type_synonym signal = "chain \<Rightarrow> nat \<Rightarrow> py_error + chain"

text \<open>
  The environment: the tables \<open>ENCODINGS\<close>, \<open>COMPRESSIONS\<close>,
  \<open>HASHS\<close>, \<open>MISC\<close> of \<open>deen.core\<close>, the methods of
  \<open>DeenTransformer\<close>, \<open>X509Certificate(data).decode()\<close> (\<open>Inl e\<close>
  when it raises \<open>crypto.Error\<close>), whether \<open>from OpenSSL import crypto\<close>
  succeeded, \<open>QTextCodec.toUnicode\<close> and \<open>bytearray(s, 'utf8')\<close>.
  A decoder returns its data with an error that is \<open>None\<close> or a truthy object,
  of which the model keeps the text.
\<close>

record env =
  ENCODINGS :: "string list"
  COMPRESSIONS :: "string list"
  HASHS :: "string list"
  MISC :: "string list"
  tr_encode :: "string \<Rightarrow> bytes \<Rightarrow> py_data"
  tr_decode :: "string \<Rightarrow> bytes \<Rightarrow> py_data \<times> string option"
  tr_compress :: "string \<Rightarrow> bytes \<Rightarrow> py_data"
  tr_uncompress :: "string \<Rightarrow> bytes \<Rightarrow> py_data \<times> string option"
  tr_hash :: "string \<Rightarrow> bytes \<Rightarrow> py_data"
  x509_decode :: "bytes \<Rightarrow> string + py_data"
  crypto :: bool
  toUnicode :: "bytes \<Rightarrow> unicode"
  utf8 :: "unicode \<Rightarrow> bytes"

subsection \<open>Helpers\<close>

definition and_then :: "py_error + 'a \<Rightarrow> ('a \<Rightarrow> py_error + 'b) \<Rightarrow> py_error + 'b" where
  "and_then m f = (case m of Inl e \<Rightarrow> Inl e | Inr x \<Rightarrow> f x)"

text \<open>Update of the widget at position \<open>j\<close>.\<close>

definition upd :: "chain \<Rightarrow> nat \<Rightarrow> (widget \<Rightarrow> widget) \<Rightarrow> chain" where
  "upd c j f = c\<lparr>widgets := (widgets c)[j := f (widgets c ! j)]\<rparr>"

text \<open>
  \<open>chr(c) in string.printable\<close>: digits, letters, punctuation (33 to 126 together
  with the space 32) and the whitespace characters 9 to 13.
\<close>

definition printable :: "char \<Rightarrow> bool" where
  "printable ch = (let n = (of_char ch :: nat) in (9 \<le> n \<and> n \<le> 13) \<or> (32 \<le> n \<and> n \<le> 126))"

text \<open>Truthiness of \<open>self.current_pick\<close>: neither \<open>None\<close> nor the empty string.\<close>

definition pick_truthy :: "string option \<Rightarrow> bool" where
  "pick_truthy p = (case p of None \<Rightarrow> False | Some s \<Rightarrow> s \<noteq> [])"

text \<open>Truthiness of the argument of \<open>set_root_content\<close>.\<close>

definition data_truthy :: "py_data \<Rightarrow> bool" where
  "data_truthy d = (case d of Bytes b \<Rightarrow> b \<noteq> [] | Str s \<Rightarrow> s \<noteq> []
     | ByteArray b \<Rightarrow> b \<noteq> [] | NoneVal \<Rightarrow> False)"

subsection \<open>Construction\<close>

text \<open>
  \<open>DeenWidget.__init__(parent, readonly, enable_actions)\<close>: the text field is created
  with the read-only flag of the widget, the hex field is hidden, the content is empty, the
  action panel is hidden unless actions are enabled, every combo box shows its first entry.
\<close>

definition DeenWidget_init :: "bool \<Rightarrow> bool \<Rightarrow> widget" where
  "DeenWidget_init ro enable_actions =
     \<lparr> readonly = ro, current_pick = None, current_combo = None, content = [],
       hex_view = False, text_readOnly = ro, text_plainText = [], text_styleSheet = [],
       text_hidden = False, hex_content = [], hex_read_only = ro,
       hex_hidden = True, action_panel_hidden = (\<not> enable_actions),
       length_field = 0, readonly_field = (if ro then ''R-'' else ''RW''),
       codec_field = [], codec_field_hidden = True, combo_index = (\<lambda>cb. 0) \<rparr>"

definition EncoderWidget_init :: chain where
  "EncoderWidget_init =
     \<lparr> widgets = [DeenWidget_init False True], logged = [], focus = None \<rparr>"

text \<open>The entries of a combo box; entry 0 is the disabled category header.\<close>

definition combo_items :: "env \<Rightarrow> combo \<Rightarrow> string list" where
  "combo_items E cb = (case cb of
       EncodingCombo \<Rightarrow> ''Encode'' # ENCODINGS E
     | DecodingCombo \<Rightarrow> ''Decode'' # ENCODINGS E
     | CompressCombo \<Rightarrow> ''Compress'' # COMPRESSIONS E
     | UncompressCombo \<Rightarrow> ''Uncompress'' # COMPRESSIONS E
     | HashCombo \<Rightarrow> ''Hash'' # HASHS E @ [''ALL'']
     | MiscCombo \<Rightarrow> ''Miscellaneous'' # MISC E)"

text \<open>\<open>combo.model().item(0).text()\<close>\<close>

definition item0_text :: "combo \<Rightarrow> string" where
  "item0_text cb = (case cb of
       EncodingCombo \<Rightarrow> ''Encode'' | DecodingCombo \<Rightarrow> ''Decode''
     | CompressCombo \<Rightarrow> ''Compress'' | UncompressCombo \<Rightarrow> ''Uncompress''
     | HashCombo \<Rightarrow> ''Hash'' | MiscCombo \<Rightarrow> ''Miscellaneous'')"

text \<open>\<open>combo.currentText()\<close>: the entry at the current index, empty when there is none.\<close>

definition currentText :: "env \<Rightarrow> combo \<Rightarrow> nat \<Rightarrow> string" where
  "currentText E cb k = (if k < length (combo_items E cb) then combo_items E cb ! k else [])"

subsection \<open>Neighbours\<close>

text \<open>\<open>has_previous\<close>: \<open>self.parent.widgets[0] != self\<close>.\<close>

definition has_previous :: "chain \<Rightarrow> nat \<Rightarrow> bool" where
  "has_previous c i = (if 0 \<noteq> i then True else False)"

text \<open>\<open>has_next\<close>: \<open>self.parent.widgets[-1] != self\<close>.\<close>

definition has_next :: "chain \<Rightarrow> nat \<Rightarrow> bool" where
  "has_next c i = (if length (widgets c) - 1 \<noteq> i then True else False)"

text \<open>
  \<open>previous\<close> compares the result of \<open>has_previous()\<close>, a \<open>bool\<close>, with
  \<open>self\<close>, a widget. Python's \<open>==\<close> between a \<open>bool\<close> and a widget object
  is the default comparison, which is false for objects of different kinds; \<open>not\<close>
  binds weaker than \<open>==\<close>.
\<close>

datatype py_object = PyBool bool | PyWidget nat

definition py_eq :: "py_object \<Rightarrow> py_object \<Rightarrow> bool" where
  "py_eq a b = (case (a, b) of
       (PyBool x, PyBool y) \<Rightarrow> x = y
     | (PyWidget m, PyWidget n) \<Rightarrow> m = n
     | _ \<Rightarrow> False)"

text \<open>
  The loop \<open>for i, w in enumerate(widgets): if w == self: return widgets[i - 1]\<close>,
  over the positions still to visit; index \<open>-1\<close> is the last position. The function
  falls off the loop (and returns \<open>None\<close>) when no position matches.
\<close>

fun previous_loop :: "nat \<Rightarrow> nat \<Rightarrow> nat list \<Rightarrow> nat option" where
  "previous_loop n self [] = None"
| "previous_loop n self (i # rest) =
     (if i = self then Some (if i = 0 then n - 1 else i - 1) else previous_loop n self rest)"

definition previous :: "chain \<Rightarrow> nat \<Rightarrow> nat option" where
  "previous c i =
     (if \<not> py_eq (PyBool (has_previous c i)) (PyWidget i) then Some i
      else previous_loop (length (widgets c)) i [0 ..< length (widgets c)])"

text \<open>
  \<open>next\<close>: when \<open>self\<close> is the last widget a new read-only widget without actions
  is appended and returned; otherwise the loop over the list returns the widget after
  \<open>self\<close>. The result is the new state and the position of the widget returned.
\<close>

definition next_widget :: "chain \<Rightarrow> nat \<Rightarrow> chain \<times> nat" where
  "next_widget c i =
     (if \<not> has_next c i
      then (c\<lparr>widgets := widgets c @ [DeenWidget_init True False]\<rparr>, length (widgets c))
      else (c, i + 1))"

subsection \<open>Content and views\<close>

text \<open>
  \<open>text_field.setPlainText(s)\<close> of widget \<open>j\<close>: the text is replaced and
  \<open>textChanged\<close> is emitted, which runs the connected
  \<open>field_content_changed\<close> of widget \<open>j\<close>.
\<close>

definition setPlainText :: "signal \<Rightarrow> chain \<Rightarrow> nat \<Rightarrow> unicode \<Rightarrow> py_error + chain" where
  "setPlainText ev c j s = ev (upd c j (\<lambda>w. w\<lparr>text_plainText := s\<rparr>)) j"

text \<open>
  The setter of \<open>content\<close>: asserts a \<open>bytearray\<close>, stores it, and shows it. In
  text view a content with a non-printable byte makes the text field read-only, and the
  text is set with \<open>setPlainText\<close>.
\<close>

definition content_set :: "signal \<Rightarrow> env \<Rightarrow> chain \<Rightarrow> nat \<Rightarrow> py_data \<Rightarrow> py_error + chain" where
  "content_set ev E c j data = (case data of
       ByteArray b \<Rightarrow>
         (let c1 = upd c j (\<lambda>w. w\<lparr>content := b\<rparr>) in
          if hex_view (widgets c1 ! j)
          then Inr (upd c1 j (\<lambda>w. w\<lparr>hex_content := content w\<rparr>))
          else
            let c2 = (if \<not> list_all printable (content (widgets c1 ! j))
                      then upd c1 j (\<lambda>w. w\<lparr>text_readOnly := True\<rparr>) else c1)
            in setPlainText ev c2 j (toUnicode E (content (widgets c2 ! j))))
     | _ \<Rightarrow> Inl AssertionError)"

definition update_length_field :: "chain \<Rightarrow> nat \<Rightarrow> chain" where
  "update_length_field c j = upd c j (\<lambda>w. w\<lparr>length_field := length (content w)\<rparr>)"

definition update_readonly_field :: "chain \<Rightarrow> nat \<Rightarrow> chain" where
  "update_readonly_field c j =
     upd c j (\<lambda>w. w\<lparr>readonly_field := (if text_readOnly w then ''R-'' else ''RW'')\<rparr>)"

definition view_text :: "signal \<Rightarrow> env \<Rightarrow> chain \<Rightarrow> nat \<Rightarrow> py_error + chain" where
  "view_text ev E c i =
     (let c1 = upd c i (\<lambda>w. w\<lparr>hex_view := False, text_hidden := False, hex_hidden := True\<rparr>)
      in if content (widgets c1 ! i) \<noteq> []
         then setPlainText ev c1 i (toUnicode E (content (widgets c1 ! i)))
         else Inr c1)"

definition view_hex :: "env \<Rightarrow> chain \<Rightarrow> nat \<Rightarrow> chain" where
  "view_hex E c i = upd c i (\<lambda>w.
     let w1 = w\<lparr>hex_view := True, text_hidden := True, hex_hidden := False,
                 hex_read_only := text_readOnly w\<rparr>;
         w2 = (if content w1 = [] then w1\<lparr>content := utf8 E (text_plainText w1)\<rparr> else w1)
     in w2\<lparr>hex_content := content w2\<rparr>)"

subsection \<open>Removing widgets\<close>

text \<open>
  The loop of \<open>remove_next_widgets\<close>: while the length differs from \<open>index\<close>,
  stop when one widget is left, otherwise pop the last widget.
\<close>

function remove_loop :: "nat \<Rightarrow> widget list \<Rightarrow> py_error + widget list" where
  "remove_loop index ws =
     (if length ws \<noteq> index
      then (if length ws = 1 then Inr ws
            else if ws = [] then Inl IndexError
            else remove_loop index (butlast ws))
      else Inr ws)"
  by pat_completeness auto
termination
  by (relation "measure (\<lambda>(index, ws). length ws)") auto

declare remove_loop.simps [simp del]

text \<open>
  \<open>remove_next_widgets(widget=None, offset=0)\<close> called on \<open>self\<close>:
  \<open>widget or self\<close>, then \<open>widgets.index(widget) + offset\<close>, which raises
  \<open>ValueError\<close> for a widget that is not in the list. A widget that is popped is
  no longer a member of the list; when it held the keyboard focus, no member holds it
  afterwards.
\<close>

definition remove_next_widgets :: "chain \<Rightarrow> nat \<Rightarrow> nat option \<Rightarrow> nat \<Rightarrow> py_error + chain" where
  "remove_next_widgets c self widget offset =
     (let w = (case widget of None \<Rightarrow> self | Some j \<Rightarrow> j) in
      if \<not> w < length (widgets c) then Inl ValueError
      else and_then (remove_loop (w + offset) (widgets c)) (\<lambda>ws.
             Inr (c\<lparr>widgets := ws,
                    focus := (case focus c of
                                None \<Rightarrow> None
                              | Some k \<Rightarrow> if k < length ws then Some k else None)\<rparr>)))"

subsection \<open>Writing into the next widget\<close>

text \<open>
  \<open>set_content_next\<close>: \<open>bytes\<close> and \<open>str\<close> are converted to a
  \<open>bytearray\<close>, anything else is handed to the setter as it is. Every
  \<open>self.next()\<close> of the body is a call of its own. The setter and line 393 each set
  the text of the next widget with \<open>setPlainText\<close>.
\<close>

definition set_content_next :: "signal \<Rightarrow> env \<Rightarrow> chain \<Rightarrow> nat \<Rightarrow> py_data \<Rightarrow> py_error + chain" where
  "set_content_next ev E c i data =
     (let conv = (case data of Bytes b \<Rightarrow> ByteArray b | Str s \<Rightarrow> ByteArray (utf8 E s)
                  | ByteArray b \<Rightarrow> ByteArray b | NoneVal \<Rightarrow> NoneVal);
          (c1, n1) = next_widget c i
      in and_then (content_set ev E c1 n1 conv) (\<lambda>c2.
          let (c3, n3) = next_widget c2 i;
              (c4, n4) = next_widget c3 i
          in and_then (setPlainText ev c4 n3 (toUnicode E (content (widgets c4 ! n4)))) (\<lambda>c5.
          let (c6, n6) = next_widget c5 i;
              c7 = update_length_field c6 n6;
              (c8, n8) = next_widget c7 i
          in Inr (if hex_view (widgets c8 ! n8)
                  then (let (c9, n9) = next_widget c8 i in view_hex E c9 n9)
                  else c8))))"

text \<open>
  \<open>set_error_next\<close>: the border of the next widget becomes red and the widgets after
  it are removed.
\<close>

definition set_error_next :: "chain \<Rightarrow> nat \<Rightarrow> py_error + chain" where
  "set_error_next c i =
     (let (c1, n) = next_widget c i;
          c2 = upd c1 n (\<lambda>w. w\<lparr>text_styleSheet := ''border: 2px solid red;''\<rparr>)
      in remove_next_widgets c2 i (Some n) 1)"

subsection \<open>The action\<close>

text \<open>\<open>LOGGER.error(error)\<close>\<close>

definition log_error :: "chain \<Rightarrow> string \<Rightarrow> chain" where
  "log_error c e = c\<lparr>logged := logged c @ [e]\<rparr>"

text \<open>
  Lines 411 to 418 of \<open>action\<close>: an empty content is read from the text field; with a
  combo box given, index 0 returns at once (the result \<open>None\<close>), any other index
  stores the combo box and its current text.
\<close>

definition action_select :: "env \<Rightarrow> chain \<Rightarrow> nat \<Rightarrow> combo option \<Rightarrow> chain \<times> bool" where
  "action_select E c i combo =
     (let c0 = (if content (widgets c ! i) = []
                then upd c i (\<lambda>w. w\<lparr>content := utf8 E (text_plainText w)\<rparr>) else c)
      in case combo of
           None \<Rightarrow> (c0, True)
         | Some cb \<Rightarrow>
             if combo_index (widgets c0 ! i) cb = 0 then (c0, False)
             else (upd c0 i (\<lambda>w. w\<lparr>current_combo := Some cb,
                      current_pick := Some (currentText E cb (combo_index w cb))\<rparr>), True))"

text \<open>
  Lines 419 to 452: the transformer is chosen by the table that holds the pick and by the
  header of the stored combo box. The result is the new state and whether \<open>error\<close>
  is set.
\<close>

definition action_transform :: "signal \<Rightarrow> env \<Rightarrow> chain \<Rightarrow> nat \<Rightarrow> py_error + (chain \<times> bool)" where
  "action_transform ev E c i =
     (let w = widgets c ! i in
      case current_pick w of
        None \<Rightarrow> Inr (c, False)
      | Some p \<Rightarrow>
          if p \<in> set (ENCODINGS E) then
            (case current_combo w of
               None \<Rightarrow> Inl AttributeError
             | Some cb \<Rightarrow>
                 if item0_text cb = ''Encode'' then
                   and_then (set_content_next ev E c i (tr_encode E p (content w)))
                     (\<lambda>c'. Inr (c', False))
                 else
                   (case tr_decode E p (content w) of
                      (decoded, None) \<Rightarrow>
                        and_then (set_content_next ev E c i decoded) (\<lambda>c'. Inr (c', False))
                    | (decoded, Some e) \<Rightarrow>
                        and_then (set_error_next (log_error c e) i) (\<lambda>c1.
                        and_then (set_content_next ev E c1 i decoded) (\<lambda>c'. Inr (c', True)))))
          else if p \<in> set (COMPRESSIONS E) then
            (case current_combo w of
               None \<Rightarrow> Inl AttributeError
             | Some cb \<Rightarrow>
                 if item0_text cb = ''Compress'' then
                   and_then (set_content_next ev E c i (tr_compress E p (content w)))
                     (\<lambda>c'. Inr (c', False))
                 else
                   (case tr_uncompress E p (content w) of
                      (uncompressed, None) \<Rightarrow>
                        and_then (set_content_next ev E c i uncompressed) (\<lambda>c'. Inr (c', False))
                    | (uncompressed, Some e) \<Rightarrow>
                        and_then (set_error_next (log_error c e) i) (\<lambda>c1.
                        and_then (set_content_next ev E c1 i uncompressed) (\<lambda>c'. Inr (c', True)))))
          else if p \<in> set (HASHS E) \<or> p = ''ALL'' then
            and_then (set_content_next ev E c i (tr_hash E p (content w))) (\<lambda>c'. Inr (c', False))
          else if p \<in> set (MISC E) then
            (if p = ''X509Certificate'' \<and> crypto E then
               (case x509_decode E (content w) of
                  Inr d \<Rightarrow> and_then (set_content_next ev E c i d) (\<lambda>c'. Inr (c', False))
                | Inl e \<Rightarrow>
                    and_then (set_error_next (log_error c e) i) (\<lambda>c1.
                    and_then (set_content_next ev E c1 i (ByteArray (content (widgets c1 ! i))))
                      (\<lambda>c'. Inr (c', True))))
             else Inr (c, False))
          else Inr (c, False))"

text \<open>
  Lines 453 to 459: the stored combo box goes back to index 0, a read-only next widget is
  labelled with the pick, and without an error the border of the next widget is reset.
  When \<open>setCurrentIndex(0)\<close> changes the index, \<open>currentIndexChanged\<close> runs
  \<open>action\<close> with this combo box, which is lines 411 to 416 at index 0.
\<close>

definition action_finish :: "env \<Rightarrow> chain \<Rightarrow> nat \<Rightarrow> bool \<Rightarrow> chain" where
  "action_finish E c i err =
     (let c1 = (case current_combo (widgets c ! i) of
                  None \<Rightarrow> c
                | Some cb \<Rightarrow>
                    if combo_index (widgets c ! i) cb = 0 then c
                    else fst (action_select E
                           (upd c i (\<lambda>w. w\<lparr>combo_index := (combo_index w)(cb := 0)\<rparr>))
                           i (Some cb)));
          (c2, n2) = next_widget c1 i;
          c3 = (if text_readOnly (widgets c2 ! n2) \<and> pick_truthy (current_pick (widgets c2 ! i))
                then (let (c2a, na) = next_widget c2 i;
                          c2b = upd c2a na (\<lambda>w. w\<lparr>codec_field :=
                                  (case current_pick (widgets c2a ! i) of
                                     None \<Rightarrow> codec_field w
                                   | Some p \<Rightarrow> ''Transformer: '' @ p)\<rparr>);
                          (c2c, nc) = next_widget c2b i
                      in upd c2c nc (\<lambda>w. w\<lparr>codec_field_hidden := False\<rparr>))
                else c2)
      in if \<not> err
         then (let (c4, n4) = next_widget c3 i
               in upd c4 n4 (\<lambda>w. w\<lparr>text_styleSheet := ''border: none;''\<rparr>))
         else c3)"

definition action :: "signal \<Rightarrow> env \<Rightarrow> chain \<Rightarrow> nat \<Rightarrow> combo option \<Rightarrow> py_error + chain" where
  "action ev E c i combo =
     (case action_select E c i combo of
        (c0, False) \<Rightarrow> Inr c0
      | (c1, True) \<Rightarrow>
          and_then (action_transform ev E c1 i) (\<lambda>(c2, err). Inr (action_finish E c2 i err)))"

subsection \<open>Edits, clearing and moving to the root\<close>

definition field_content_changed :: "signal \<Rightarrow> env \<Rightarrow> chain \<Rightarrow> nat \<Rightarrow> py_error + chain" where
  "field_content_changed ev E c i =
     (let c1 = (if action_panel_hidden (widgets c ! i)
                then upd c i (\<lambda>w. w\<lparr>action_panel_hidden := False\<rparr>) else c)
      in and_then
           (if has_next c1 i \<and> \<not> text_readOnly (widgets c1 ! i)
            then remove_next_widgets c1 i None 2
            else if has_next c1 i \<and> text_readOnly (widgets c1 ! i)
            then set_content_next ev E c1 i (ByteArray (content (widgets c1 ! i)))
            else Inr c1)
           (\<lambda>c2.
              let c3 = (if \<not> text_readOnly (widgets c2 ! i)
                        then (if \<not> hex_view (widgets c2 ! i)
                              then upd c2 i (\<lambda>w. w\<lparr>content := utf8 E (text_plainText w)\<rparr>)
                              else upd c2 i (\<lambda>w. w\<lparr>content := hex_content w\<rparr>))
                        else c2);
                  c4 = update_length_field c3 i;
                  c5 = update_readonly_field c4 i
              in if focus c5 = Some i \<and> pick_truthy (current_pick (widgets c5 ! i))
                 then action ev E c5 i None
                 else Inr c5))"

text \<open>
  The delivery of \<open>textChanged\<close> of the text field of widget \<open>j\<close>: the slot
  \<open>field_content_changed\<close> of that widget runs, and what it emits is delivered in
  turn. \<open>n\<close> bounds the nesting of deliveries, as the recursion limit of the
  interpreter does; a delivery beyond it raises \<open>RecursionError\<close>.
\<close>

primrec textChanged :: "nat \<Rightarrow> env \<Rightarrow> signal" where
  "textChanged 0 E = (\<lambda>c j. Inl RecursionError)"
| "textChanged (Suc n) E = field_content_changed (textChanged n E) E"

text \<open>
  \<open>clear_content(widget=None)\<close> called on \<open>self\<close>. \<open>text_field.clear()\<close>
  empties the text and emits \<open>textChanged\<close>. The two label updates are written
  \<open>widget.update_length_field(self)\<close> and \<open>widget.update_readonly_field(self)\<close>:
  they refresh the labels of \<open>self\<close>.
\<close>

definition clear_content :: "signal \<Rightarrow> chain \<Rightarrow> nat \<Rightarrow> nat option \<Rightarrow> py_error + chain" where
  "clear_content ev c self widget =
     (let w = (case widget of None \<Rightarrow> self | Some j \<Rightarrow> j)
      in and_then
           (if 0 = w
            then and_then (setPlainText ev c w []) (\<lambda>a.
                   let b = upd a w (\<lambda>x. x\<lparr>hex_content := []\<rparr>);
                       d = upd b w (\<lambda>x. x\<lparr>content := []\<rparr>);
                       e = update_length_field d self;
                       f = upd e w (\<lambda>x. x\<lparr>text_readOnly := False\<rparr>);
                       g = update_readonly_field f self
                   in Inr (upd g w (\<lambda>x. x\<lparr>current_pick := None\<rparr>)))
            else Inr c)
           (\<lambda>c1. remove_next_widgets c1 self (Some w) 0))"

definition move_content_to_root :: "signal \<Rightarrow> env \<Rightarrow> chain \<Rightarrow> nat \<Rightarrow> py_error + chain" where
  "move_content_to_root ev E c i =
     (let data = content (widgets c ! i)
      in and_then (clear_content ev c i (Some 0)) (\<lambda>c1. content_set ev E c1 0 (ByteArray data)))"

text \<open>
  \<open>EncoderWidget.set_root_content\<close>: a falsy argument is ignored;
  \<open>bytearray(data)\<close> of a \<open>str\<close> has no encoding and raises \<open>TypeError\<close>.
\<close>

definition set_root_content :: "signal \<Rightarrow> env \<Rightarrow> chain \<Rightarrow> py_data \<Rightarrow> py_error + chain" where
  "set_root_content ev E c data =
     (if data_truthy data
      then (case data of
              Bytes b \<Rightarrow> content_set ev E c 0 (ByteArray b)
            | Str s \<Rightarrow> Inl TypeError
            | ByteArray b \<Rightarrow> content_set ev E c 0 (ByteArray b)
            | NoneVal \<Rightarrow> content_set ev E c 0 NoneVal)
      else Inr c)"

subsection \<open>Events of the user\<close>

text \<open>
  Typing into the text field of widget \<open>i\<close> changes its plain text and emits
  \<open>textChanged\<close>; editing the hex field changes its content and emits
  \<open>bytesChanged\<close>; choosing entry \<open>k\<close> of a combo box changes its current
  index and emits \<open>currentIndexChanged\<close>. Each signal is connected to the handler
  called here.
\<close>

definition user_edit_text :: "signal \<Rightarrow> env \<Rightarrow> chain \<Rightarrow> nat \<Rightarrow> unicode \<Rightarrow> py_error + chain" where
  "user_edit_text ev E c i s =
     field_content_changed ev E (upd c i (\<lambda>w. w\<lparr>text_plainText := s\<rparr>)) i"

definition user_edit_hex :: "signal \<Rightarrow> env \<Rightarrow> chain \<Rightarrow> nat \<Rightarrow> bytes \<Rightarrow> py_error + chain" where
  "user_edit_hex ev E c i b =
     field_content_changed ev E (upd c i (\<lambda>w. w\<lparr>hex_content := b\<rparr>)) i"

definition user_select :: "signal \<Rightarrow> env \<Rightarrow> chain \<Rightarrow> nat \<Rightarrow> combo \<Rightarrow> nat \<Rightarrow> py_error + chain" where
  "user_select ev E c i cb k =
     action ev E (upd c i (\<lambda>w. w\<lparr>combo_index := (combo_index w)(cb := k)\<rparr>)) i (Some cb)"

text \<open>The text field or the hex field of widget \<open>i\<close> takes the keyboard focus.\<close>

definition focus_field :: "chain \<Rightarrow> nat \<Rightarrow> chain" where
  "focus_field c i = c\<lparr>focus := Some i\<rparr>"

section \<open>Definitions used in the statements and proofs\<close>

definition grow :: "chain \<Rightarrow> nat \<Rightarrow> chain" where
  "grow c i = fst (next_widget c i)"

definition bytes_of :: "env \<Rightarrow> py_data \<Rightarrow> bytes option" where
  "bytes_of E d = (case d of Bytes b \<Rightarrow> Some b | Str s \<Rightarrow> Some (utf8 E s)
     | ByteArray b \<Rightarrow> Some b | NoneVal \<Rightarrow> None)"

definition keep_focus :: "nat \<Rightarrow> nat option \<Rightarrow> nat option" where
  "keep_focus n f = (case f of None \<Rightarrow> None | Some k \<Rightarrow> if k < n then Some k else None)"

definition red :: "widget \<Rightarrow> widget" where
  "red w = w\<lparr>text_styleSheet := ''border: 2px solid red;''\<rparr>"



text \<open>
  What a delivery of \<open>textChanged\<close> to widget \<open>j\<close> leaves as it is: the widgets
  before \<open>j\<close>, and of widget \<open>j\<close> itself the fields below.
\<close>

definition wkept :: "widget \<Rightarrow> widget \<Rightarrow> bool" where
  "wkept w w' = (hex_view w' = hex_view w \<and> codec_field_hidden w' = codec_field_hidden w
     \<and> text_styleSheet w' = text_styleSheet w \<and> current_pick w' = current_pick w
     \<and> current_combo w' = current_combo w)"

definition kept :: "widget \<Rightarrow> widget \<Rightarrow> bool" where
  "kept w w' = (wkept w w' \<and> text_readOnly w' = text_readOnly w)"

definition wframe :: "nat \<Rightarrow> chain \<Rightarrow> chain \<Rightarrow> bool" where
  "wframe j c c' = (j < length (widgets c') \<and> take j (widgets c') = take j (widgets c)
     \<and> wkept (widgets c ! j) (widgets c' ! j))"

definition frame :: "nat \<Rightarrow> chain \<Rightarrow> chain \<Rightarrow> bool" where
  "frame j c c' = (j < length (widgets c') \<and> take j (widgets c') = take j (widgets c)
     \<and> kept (widgets c ! j) (widgets c' ! j))"

definition frames :: "signal \<Rightarrow> bool" where
  "frames ev = (\<forall>c j c'. j < length (widgets c) \<longrightarrow> ev c j = Inr c' \<longrightarrow> frame j c c')"

definition untouched :: "nat \<Rightarrow> chain \<Rightarrow> chain \<Rightarrow> bool" where
  "untouched i c c' = (i < length (widgets c')
     \<and> take (Suc i) (widgets c') = take (Suc i) (widgets c))"

definition fill_content :: "env \<Rightarrow> widget \<Rightarrow> widget" where
  "fill_content E w = (if content w = [] then w\<lparr>content := utf8 E (text_plainText w)\<rparr> else w)"

definition select_widget :: "env \<Rightarrow> combo option \<Rightarrow> widget \<Rightarrow> widget" where
  "select_widget E combo w =
     (case combo of
        None \<Rightarrow> fill_content E w
      | Some cb \<Rightarrow>
          if combo_index w cb = 0 then fill_content E w
          else (fill_content E w)\<lparr>current_combo := Some cb,
                  current_pick := Some (currentText E cb (combo_index w cb))\<rparr>)"

definition select_runs :: "combo option \<Rightarrow> widget \<Rightarrow> bool" where
  "select_runs combo w = (case combo of None \<Rightarrow> True | Some cb \<Rightarrow> combo_index w cb \<noteq> 0)"

definition reset_combo :: "env \<Rightarrow> widget \<Rightarrow> widget" where
  "reset_combo E w = (case current_combo w of None \<Rightarrow> w
     | Some cb \<Rightarrow> if combo_index w cb = 0 then w
                  else fill_content E (w\<lparr>combo_index := (combo_index w)(cb := 0)\<rparr>))"

definition finish_next :: "string option \<Rightarrow> bool \<Rightarrow> widget \<Rightarrow> widget" where
  "finish_next pick err w =
     (let w1 = (if text_readOnly w \<and> pick_truthy pick
                then w\<lparr>codec_field := (case pick of None \<Rightarrow> codec_field w
                                         | Some p \<Rightarrow> ''Transformer: '' @ p),
                       codec_field_hidden := False\<rparr>
                else w)
      in if \<not> err then w1\<lparr>text_styleSheet := ''border: none;''\<rparr> else w1)"

text \<open>\<open>field_content_changed\<close> before its last statement.\<close>

definition fcc_pre :: "signal \<Rightarrow> env \<Rightarrow> chain \<Rightarrow> nat \<Rightarrow> py_error + chain" where
  "fcc_pre ev E c i =
     (let c1 = (if action_panel_hidden (widgets c ! i)
                then upd c i (\<lambda>w. w\<lparr>action_panel_hidden := False\<rparr>) else c)
      in and_then
           (if has_next c1 i \<and> \<not> text_readOnly (widgets c1 ! i)
            then remove_next_widgets c1 i None 2
            else if has_next c1 i \<and> text_readOnly (widgets c1 ! i)
            then set_content_next ev E c1 i (ByteArray (content (widgets c1 ! i)))
            else Inr c1)
           (\<lambda>c2.
              let c3 = (if \<not> text_readOnly (widgets c2 ! i)
                        then (if \<not> hex_view (widgets c2 ! i)
                              then upd c2 i (\<lambda>w. w\<lparr>content := utf8 E (text_plainText w)\<rparr>)
                              else upd c2 i (\<lambda>w. w\<lparr>content := hex_content w\<rparr>))
                        else c2);
                  c4 = update_length_field c3 i
              in Inr (update_readonly_field c4 i)))"



text \<open>A widget shows the error border.\<close>

definition stage_error :: "widget \<Rightarrow> bool" where
  "stage_error w = (text_styleSheet w = ''border: 2px solid red;'')"

text \<open>An environment and chains to run the handlers on.\<close>

definition ascii :: "string \<Rightarrow> unicode" where
  "ascii s = map of_char s"

definition test_env :: env where
  "test_env =
     \<lparr> ENCODINGS = [''Base64'', ''Hex''], COMPRESSIONS = [''Gzip''], HASHS = [''MD5''],
       MISC = [''X509Certificate''],
       tr_encode = (\<lambda>name b. Bytes (rev b)),
       tr_decode = (\<lambda>name b. if CHR ''!'' \<in> set b then (Bytes b, Some ''Incorrect padding'')
                                else (Bytes (rev b), None)),
       tr_compress = (\<lambda>name b. Bytes b),
       tr_uncompress = (\<lambda>name b. if b = [] then (Bytes b, Some ''Not a gzipped file'')
                                    else (Bytes b, None)),
       tr_hash = (\<lambda>name b. Bytes ''d41d8cd9''),
       x509_decode = (\<lambda>b. Inl ''no start line''),
       crypto = True,
       toUnicode = ascii,
       utf8 = map char_of \<rparr>"

text \<open>The same environment without the OpenSSL module.\<close>

definition test_env_no_crypto :: env where
  "test_env_no_crypto = test_env\<lparr>crypto := False\<rparr>"

text \<open>
  A single root widget with content \<open>b\<close> and entry \<open>k\<close> chosen in the combo box
  \<open>cb\<close>.
\<close>

definition root_chain :: "bytes \<Rightarrow> combo \<Rightarrow> nat \<Rightarrow> chain" where
  "root_chain b cb k =
     upd EncoderWidget_init 0 (\<lambda>w. w\<lparr>content := b, combo_index := (combo_index w)(cb := k)\<rparr>)"

text \<open>The widgets of a handler's result; no widgets when the handler raised.\<close>

definition result_widgets :: "py_error + chain \<Rightarrow> widget list" where
  "result_widgets r = (case r of Inl e \<Rightarrow> [] | Inr c \<Rightarrow> widgets c)"

text \<open>The state a handler returns; the empty chain when the handler raised.\<close>

definition result_chain :: "py_error + chain \<Rightarrow> chain" where
  "result_chain r = (case r of Inl e \<Rightarrow> \<lparr>widgets = [], logged = [], focus = None\<rparr> | Inr c \<Rightarrow> c)"



text \<open>
  What \<open>field_content_changed\<close> does to its own widget when that widget is the last
  one and does not apply a pick: the action panel is shown, an editable widget reads its
  content from the visible field, and the two labels are refreshed.
\<close>

definition settle :: "env \<Rightarrow> widget \<Rightarrow> widget" where
  "settle E w =
     (let w1 = w\<lparr>action_panel_hidden := False\<rparr>;
          w3 = (if \<not> text_readOnly w1
                then (if \<not> hex_view w1 then w1\<lparr>content := utf8 E (text_plainText w1)\<rparr>
                      else w1\<lparr>content := hex_content w1\<rparr>)
                else w1)
      in w3\<lparr>length_field := length (content w3),
             readonly_field := (if text_readOnly w3 then ''R-'' else ''RW'')\<rparr>)"

text \<open>\<open>view_hex\<close> on the widget itself.\<close>

definition hex_shown :: "env \<Rightarrow> widget \<Rightarrow> widget" where
  "hex_shown E w =
     (let w1 = w\<lparr>hex_view := True, text_hidden := True, hex_hidden := False,
                 hex_read_only := text_readOnly w\<rparr>;
         w2 = (if content w1 = [] then w1\<lparr>content := utf8 E (text_plainText w1)\<rparr> else w1)
     in w2\<lparr>hex_content := content w2\<rparr>)"

text \<open>
  What \<open>set_content_next\<close> with the bytes \<open>b\<close> does to the next widget when that
  widget is the last one and does not have the focus: the setter with its
  \<open>textChanged\<close> (\<open>stored\<close>), the \<open>setPlainText\<close> of line 393 with its
  \<open>textChanged\<close> (\<open>retexted\<close>), the length label and \<open>view_hex\<close>.
\<close>

definition stored :: "env \<Rightarrow> bytes \<Rightarrow> widget \<Rightarrow> widget" where
  "stored E b w =
     (let w1 = w\<lparr>content := b\<rparr>
      in if hex_view w1 then w1\<lparr>hex_content := b\<rparr>
         else settle E ((if \<not> list_all printable b then w1\<lparr>text_readOnly := True\<rparr> else w1)
                \<lparr>text_plainText := toUnicode E b\<rparr>))"

definition retexted :: "env \<Rightarrow> widget \<Rightarrow> widget" where
  "retexted E w = settle E (w\<lparr>text_plainText := toUnicode E (content w)\<rparr>)"

definition receive :: "env \<Rightarrow> bytes \<Rightarrow> widget \<Rightarrow> widget" where
  "receive E b w =
     (let w3 = retexted E (stored E b w);
          w4 = w3\<lparr>length_field := length (content w3)\<rparr>
      in if hex_view w4 then hex_shown E w4 else w4)"



text \<open>
  The bytes an action on a widget works on: lines 412 and 413 read an empty content from
  the text field.
\<close>

definition source_content :: "env \<Rightarrow> widget \<Rightarrow> bytes" where
  "source_content E w = (if content w = [] then utf8 E (text_plainText w) else content w)"








text \<open>
  A chain of three widgets: the root holds \<open>abc\<close> and shows entry 1 of the
  miscellaneous combo box (\<open>X509Certificate\<close>), two derived widgets follow.
\<close>

definition three_stage_chain :: chain where
  "three_stage_chain =
     \<lparr> widgets = [(DeenWidget_init False True)
                     \<lparr>content := ''abc'', combo_index := (\<lambda>cb. 0)(MiscCombo := 1)\<rparr>,
                  (DeenWidget_init True False)\<lparr>content := ''cba''\<rparr>,
                  (DeenWidget_init True False)\<lparr>content := ''d41d8cd9''\<rparr>],
       logged = [], focus = None \<rparr>"

section \<open>Derived facts about the handlers\<close>

lemma remove_loop_result:
  "ws \<noteq> [] \<Longrightarrow>
   remove_loop index ws = Inr (take (if index \<le> length ws then max 1 index else 1) ws)"
proof (induction index ws rule: remove_loop.induct)
  case (1 index ws)
  show ?case
  proof (cases "length ws = index")
    case True
    with "1.prems" show ?thesis
      by (subst remove_loop.simps) (simp add: Suc_le_eq)
  next
    case ne: False
    show ?thesis
    proof (cases "length ws = 1")
      case True
      with ne show ?thesis by (subst remove_loop.simps) auto
    next
      case False
      with "1.prems" have bl: "butlast ws \<noteq> []"
        by (cases ws rule: rev_cases) auto
      have "remove_loop index ws = remove_loop index (butlast ws)"
        using ne False "1.prems" by (subst remove_loop.simps) simp
      also have "\<dots> = Inr (take (if index \<le> length (butlast ws) then max 1 index else 1) (butlast ws))"
        using "1.IH" [OF ne False "1.prems" bl] .
      also have "\<dots> = Inr (take (if index \<le> length ws then max 1 index else 1) ws)"
      proof -
        have "length ws \<noteq> 0" using "1.prems" by simp
        then have "2 \<le> length ws" using False by arith
        then show ?thesis using ne by (auto simp: take_butlast max_def)
      qed
      finally show ?thesis .
    qed
  qed
qed

lemma and_then_Inr [simp]: "and_then (Inr x) f = f x"
  by (simp add: and_then_def)

lemma and_then_Inl [simp]: "and_then (Inl e) f = Inl e"
  by (simp add: and_then_def)

lemma and_then_eq_Inr:
  "and_then m f = Inr y \<longleftrightarrow> (\<exists>x. m = Inr x \<and> f x = Inr y)"
  by (cases m) simp_all

lemma widgets_upd [simp]: "widgets (upd c j f) = (widgets c)[j := f (widgets c ! j)]"
  by (simp add: upd_def)

lemma logged_upd [simp]: "logged (upd c j f) = logged c"
  by (simp add: upd_def)

lemma focus_upd [simp]: "focus (upd c j f) = focus c"
  by (simp add: upd_def)

lemma has_next_upd [simp]: "has_next (upd c j f) i = has_next c i"
  by (simp add: has_next_def)


lemma keep_focus_simps [simp]:
  "keep_focus n None = None"
  "k < n \<Longrightarrow> keep_focus n (Some k) = Some k"
  "\<not> k < n \<Longrightarrow> keep_focus n (Some k) = None"
  by (simp_all add: keep_focus_def)


lemma next_widget_in:
  "i < length (widgets c) \<Longrightarrow> next_widget c i = (grow c i, Suc i)"
  by (auto simp: next_widget_def grow_def has_next_def)

lemma grow_id: "Suc i < length (widgets c) \<Longrightarrow> grow c i = c"
  by (auto simp: next_widget_def grow_def has_next_def)

lemma next_widget_has_next:
  "Suc i < length (widgets c) \<Longrightarrow> next_widget c i = (c, Suc i)"
  by (simp add: next_widget_in grow_id)

lemma widgets_grow:
  "i < length (widgets c) \<Longrightarrow>
   widgets (grow c i) =
     (if Suc i = length (widgets c) then widgets c @ [DeenWidget_init True False] else widgets c)"
  by (auto simp: next_widget_def grow_def has_next_def)

lemma logged_grow [simp]: "logged (grow c i) = logged c"
  by (auto simp: next_widget_def grow_def has_next_def)

lemma focus_grow [simp]: "focus (grow c i) = focus c"
  by (auto simp: next_widget_def grow_def has_next_def)

lemma length_grow:
  "i < length (widgets c) \<Longrightarrow> length (widgets (grow c i)) = max (length (widgets c)) (i + 2)"
  by (auto simp: widgets_grow)

lemma grow_has_next: "i < length (widgets c) \<Longrightarrow> Suc i < length (widgets (grow c i))"
  by (auto simp: widgets_grow)

lemma grow_nth: "k < length (widgets c) \<Longrightarrow> i < length (widgets c) \<Longrightarrow>
   widgets (grow c i) ! k = widgets c ! k"
  by (auto simp: widgets_grow nth_append)

lemma take_grow: "i < length (widgets c) \<Longrightarrow> k \<le> length (widgets c) \<Longrightarrow>
   take k (widgets (grow c i)) = take k (widgets c)"
  by (auto simp: widgets_grow)


lemma grow_upd:
  "i < length (widgets c) \<Longrightarrow> j < length (widgets c) \<Longrightarrow>
   grow (upd c j f) i = upd (grow c i) j f"
  by (auto simp: grow_def next_widget_def has_next_def upd_def list_update_append nth_append)

lemma list_update_other_id:
  "j \<noteq> i \<Longrightarrow> xs[i := a, j := xs ! j] = xs[i := a]"
  by (metis list_update_id nth_list_update_neq)

lemma remove_next_widgets_eq:
  assumes "w < length (widgets c)"
  shows "remove_next_widgets c self (Some w) offset =
     Inr (c\<lparr>widgets := take (if w + offset \<le> length (widgets c) then max 1 (w + offset) else 1)
                              (widgets c),
           focus := keep_focus (length (take (if w + offset \<le> length (widgets c)
                                               then max 1 (w + offset) else 1) (widgets c)))
                      (focus c)\<rparr>)"
proof -
  have "widgets c \<noteq> []" using assms by auto
  then show ?thesis using assms
    by (auto simp add: remove_next_widgets_def remove_loop_result keep_focus_def
        split: option.splits)
qed


lemma remove_next_widgets_props:
  assumes w: "(case widget of None \<Rightarrow> self | Some j \<Rightarrow> j) = w" "w < length (widgets c)"
    and r: "remove_next_widgets c self widget offset = Inr c'"
  shows "widgets c' = take (if w + offset \<le> length (widgets c) then max 1 (w + offset) else 1)
                        (widgets c)"
    and "focus c' = keep_focus (length (widgets c')) (focus c)"
    and "logged c' = logged c"
proof -
  have e: "remove_next_widgets c self widget offset = remove_next_widgets c self (Some w) offset"
    using w by (cases widget) (simp_all add: remove_next_widgets_def)
  from r show "widgets c' = take (if w + offset \<le> length (widgets c) then max 1 (w + offset) else 1)
                        (widgets c)"
    unfolding e remove_next_widgets_eq [OF w(2)] by auto
  from r show "focus c' = keep_focus (length (widgets c')) (focus c)"
    unfolding e remove_next_widgets_eq [OF w(2)] by auto
  from r show "logged c' = logged c"
    unfolding e remove_next_widgets_eq [OF w(2)] by auto
qed

lemma remove_next_widgets_returns:
  assumes "(case widget of None \<Rightarrow> self | Some j \<Rightarrow> j) < length (widgets c)"
  shows "\<exists>c'. remove_next_widgets c self widget offset = Inr c'"
proof -
  have "widgets c \<noteq> []" using assms by auto
  then show ?thesis using assms
    by (simp add: remove_next_widgets_def remove_loop_result Let_def)
qed

lemma set_error_next_eq:
  assumes "i < length (widgets c)"
  shows "set_error_next c i =
     Inr ((grow c i)\<lparr>widgets := take (i + 2) ((widgets (grow c i))[Suc i := red (widgets (grow c i) ! Suc i)]),
                     focus := keep_focus (i + 2) (focus c)\<rparr>)"
proof -
  have g: "Suc i < length (widgets (grow c i))" by (rule grow_has_next [OF assms])
  then have m: "min (length (widgets (grow c i))) (Suc (Suc i)) = Suc (Suc i)" by simp
  show ?thesis
    unfolding set_error_next_def next_widget_in [OF assms]
    using g by (simp add: remove_next_widgets_eq red_def upd_def m)
qed

lemma set_error_next_props:
  assumes i: "i < length (widgets c)" and r: "set_error_next c i = Inr c'"
  shows "length (widgets c') = i + 2"
    and "take (Suc i) (widgets c') = take (Suc i) (widgets c)"
    and "logged c' = logged c"
    and "text_styleSheet (widgets c' ! Suc i) = ''border: 2px solid red;''"
    and "focus c' = keep_focus (i + 2) (focus c)"
    and "Suc i < length (widgets c) \<Longrightarrow> text_readOnly (widgets c' ! Suc i) = text_readOnly (widgets c ! Suc i)"
    and "\<not> Suc i < length (widgets c) \<Longrightarrow> text_readOnly (widgets c' ! Suc i)"
proof -
  have g: "Suc i < length (widgets (grow c i))" by (rule grow_has_next [OF i])
  have c': "c' = (grow c i)\<lparr>widgets := take (i + 2) ((widgets (grow c i))[Suc i := red (widgets (grow c i) ! Suc i)]),
                     focus := keep_focus (i + 2) (focus c)\<rparr>"
    using r set_error_next_eq [OF i] by simp
  show "length (widgets c') = i + 2" using g by (simp add: c')
  show "take (Suc i) (widgets c') = take (Suc i) (widgets c)"
    using i by (simp add: c' widgets_grow min_def)
  show "logged c' = logged c" by (simp add: c')
  show "text_styleSheet (widgets c' ! Suc i) = ''border: 2px solid red;''"
    using g by (simp add: c' red_def)
  show "focus c' = keep_focus (i + 2) (focus c)" by (simp add: c')
  show "Suc i < length (widgets c) \<Longrightarrow> text_readOnly (widgets c' ! Suc i) = text_readOnly (widgets c ! Suc i)"
    using i by (simp add: c' grow_id red_def)
  show "\<not> Suc i < length (widgets c) \<Longrightarrow> text_readOnly (widgets c' ! Suc i)"
    using i g by (simp add: c' widgets_grow red_def DeenWidget_init_def nth_append)
qed

lemma wkept_refl [simp]: "wkept w w"
  by (simp add: wkept_def)

lemma kept_refl [simp]: "kept w w"
  by (simp add: kept_def)

lemma wkept_trans: "wkept a b \<Longrightarrow> wkept b c \<Longrightarrow> wkept a c"
  by (simp add: wkept_def)

lemma kept_trans: "kept a b \<Longrightarrow> kept b c \<Longrightarrow> kept a c"
  by (simp add: kept_def wkept_def)

lemma kept_wkept: "kept a b \<Longrightarrow> wkept a b"
  by (simp add: kept_def)

lemma frame_wframe: "frame j c c' \<Longrightarrow> wframe j c c'"
  by (simp add: frame_def wframe_def kept_def)

lemma frame_refl: "j < length (widgets c) \<Longrightarrow> frame j c c"
  by (simp add: frame_def)

lemma wframe_refl: "j < length (widgets c) \<Longrightarrow> wframe j c c"
  by (simp add: wframe_def)

lemma frame_trans: "frame j a b \<Longrightarrow> frame j b c \<Longrightarrow> frame j a c"
  by (auto simp: frame_def intro: kept_trans)

lemma wframe_trans: "wframe j a b \<Longrightarrow> wframe j b c \<Longrightarrow> wframe j a c"
  by (auto simp: wframe_def intro: wkept_trans)

lemma untouched_refl: "i < length (widgets c) \<Longrightarrow> untouched i c c"
  by (simp add: untouched_def)

lemma untouched_trans: "untouched i a b \<Longrightarrow> untouched i b c \<Longrightarrow> untouched i a c"
  by (simp add: untouched_def)

lemma untouched_length: "untouched i c c' \<Longrightarrow> i < length (widgets c)"
proof -
  assume u: "untouched i c c'"
  then have "length (take (Suc i) (widgets c')) = length (take (Suc i) (widgets c))"
    by (simp add: untouched_def)
  moreover have "i < length (widgets c')" using u by (simp add: untouched_def)
  ultimately show ?thesis by (simp add: min_def split: if_splits)
qed

lemma untouched_nth:
  assumes "untouched i c c'" and "k \<le> i"
  shows "widgets c' ! k = widgets c ! k"
proof -
  have "take (Suc i) (widgets c') ! k = take (Suc i) (widgets c) ! k"
    using assms(1) by (simp add: untouched_def)
  then show ?thesis using assms(2) by simp
qed

lemma untouched_take:
  assumes "untouched i c c'" and "k \<le> Suc i"
  shows "take k (widgets c') = take k (widgets c)"
proof -
  have "take k (take (Suc i) (widgets c')) = take k (take (Suc i) (widgets c))"
    using assms(1) by (simp add: untouched_def)
  then show ?thesis using assms(2) by (simp add: min_def)
qed

lemma untouched_frame: "untouched i c c' \<Longrightarrow> frame i c c'"
  using untouched_nth [of i c c' i] untouched_take [of i c c' i]
  by (simp add: frame_def untouched_def)

lemma wframe_Suc_untouched: "wframe (Suc i) c c' \<Longrightarrow> untouched i c c'"
  by (simp add: wframe_def untouched_def)

lemma frame_Suc_untouched: "frame (Suc i) c c' \<Longrightarrow> untouched i c c'"
  by (simp add: frame_def untouched_def)

lemma untouched_upd: "untouched i c c' \<Longrightarrow> i < j \<Longrightarrow> untouched i c (upd c' j f)"
  by (simp add: untouched_def)

lemma untouched_grow: "i < length (widgets c) \<Longrightarrow> untouched i c (grow c i)"
  by (simp add: untouched_def take_grow grow_has_next Suc_lessD)

lemma frame_upd:
  assumes "frame j c c'" and "kept (widgets c' ! j) (f (widgets c' ! j))"
  shows "frame j c (upd c' j f)"
  using assms by (auto simp: frame_def intro: kept_trans)

lemma wframe_upd:
  assumes "wframe j c c'" and "wkept (widgets c' ! j) (f (widgets c' ! j))"
  shows "wframe j c (upd c' j f)"
  using assms by (auto simp: wframe_def intro: wkept_trans)

lemma frame_upd_above: "frame j c c' \<Longrightarrow> j < k \<Longrightarrow> frame j c (upd c' k f)"
  by (simp add: frame_def)

lemma frame_logged: "frame j c c' \<Longrightarrow> frame j (c\<lparr>logged := l\<rparr>) c'"
  by (simp add: frame_def)

lemma frameD:
  assumes "frames ev" and "j < length (widgets c)" and "ev c j = Inr c'"
  shows "frame j c c'"
  using assms by (auto simp: frames_def)

text \<open>The content setter.\<close>

lemma content_set_wframe:
  assumes ev: "frames ev" and j: "j < length (widgets c)"
    and r: "content_set ev E c j data = Inr c'"
  shows "wframe j c c'"
    and "\<exists>b. data = ByteArray b \<and> (text_readOnly (widgets c' ! j) \<longleftrightarrow>
           text_readOnly (widgets c ! j) \<or> (\<not> hex_view (widgets c ! j) \<and> \<not> list_all printable b))"
proof -
  obtain b where d: "data = ByteArray b"
    using r by (cases data) (simp_all add: content_set_def)
  let ?c1 = "upd c j (\<lambda>w. w\<lparr>content := b\<rparr>)"
  have both: "wframe j c c' \<and> (text_readOnly (widgets c' ! j) \<longleftrightarrow>
           text_readOnly (widgets c ! j) \<or> (\<not> hex_view (widgets c ! j) \<and> \<not> list_all printable b))"
  proof (cases "hex_view (widgets c ! j)")
    case True
    then have "c' = upd ?c1 j (\<lambda>w. w\<lparr>hex_content := content w\<rparr>)"
      using r j by (simp add: content_set_def d Let_def)
    then show ?thesis using j True by (simp add: wframe_def wkept_def)
  next
    case False
    let ?c2 = "if \<not> list_all printable b then upd ?c1 j (\<lambda>w. w\<lparr>text_readOnly := True\<rparr>) else ?c1"
    let ?c3 = "upd ?c2 j (\<lambda>w. w\<lparr>text_plainText := toUnicode E (content (widgets ?c2 ! j))\<rparr>)"
    have e: "ev ?c3 j = Inr c'"
      using r j False by (simp add: content_set_def d Let_def setPlainText_def)
    have j3: "j < length (widgets ?c3)" using j by simp
    have f: "frame j ?c3 c'" by (rule frameD [OF ev j3 e])
    have w3: "wframe j c ?c3" using j by (simp add: wframe_def wkept_def)
    have ro3: "text_readOnly (widgets ?c3 ! j) \<longleftrightarrow> text_readOnly (widgets c ! j) \<or> \<not> list_all printable b"
      using j by simp
    from f have "text_readOnly (widgets c' ! j) = text_readOnly (widgets ?c3 ! j)"
      by (simp add: frame_def kept_def)
    with ro3 wframe_trans [OF w3 frame_wframe [OF f]] False show ?thesis by simp
  qed
  from both show "wframe j c c'" by simp
  from both d show "\<exists>b. data = ByteArray b \<and> (text_readOnly (widgets c' ! j) \<longleftrightarrow>
           text_readOnly (widgets c ! j) \<or> (\<not> hex_view (widgets c ! j) \<and> \<not> list_all printable b))"
    by simp
qed

text \<open>\<open>set_content_next\<close>\<close>

lemma set_content_next_wframe:
  assumes ev: "frames ev" and i: "i < length (widgets c)"
    and r: "set_content_next ev E c i d = Inr c'"
  shows "wframe (Suc i) (grow c i) c'"
proof -
  let ?g = "grow c i"
  have g: "Suc i < length (widgets ?g)" by (rule grow_has_next [OF i])
  obtain conv where conv: "conv = (case d of Bytes b \<Rightarrow> ByteArray b | Str s \<Rightarrow> ByteArray (utf8 E s)
                  | ByteArray b \<Rightarrow> ByteArray b | NoneVal \<Rightarrow> NoneVal)" by simp
  from r obtain c2 where c2: "content_set ev E ?g (Suc i) conv = Inr c2"
    and rest: "(let (c3, n3) = next_widget c2 i;
              (c4, n4) = next_widget c3 i
          in and_then (setPlainText ev c4 n3 (toUnicode E (content (widgets c4 ! n4)))) (\<lambda>c5.
          let (c6, n6) = next_widget c5 i;
              c7 = update_length_field c6 n6;
              (c8, n8) = next_widget c7 i
          in Inr (if hex_view (widgets c8 ! n8)
                  then (let (c9, n9) = next_widget c8 i in view_hex E c9 n9)
                  else c8))) = Inr c'"
    unfolding set_content_next_def next_widget_in [OF i] conv [symmetric]
    by (auto simp: Let_def and_then_eq_Inr)
  have w2: "wframe (Suc i) ?g c2" by (rule content_set_wframe(1) [OF ev g c2])
  then have l2: "Suc i < length (widgets c2)" by (simp add: wframe_def)
  let ?c4 = "upd c2 (Suc i) (\<lambda>w. w\<lparr>text_plainText := toUnicode E (content (widgets c2 ! Suc i))\<rparr>)"
  define fin where "fin = (\<lambda>c5. (let (c6, n6) = next_widget c5 i;
              c7 = update_length_field c6 n6;
              (c8, n8) = next_widget c7 i
          in Inr (if hex_view (widgets c8 ! n8)
                  then (let (c9, n9) = next_widget c8 i in view_hex E c9 n9)
                  else c8)) :: py_error + chain)"
  have "\<exists>c5. ev ?c4 (Suc i) = Inr c5 \<and> fin c5 = Inr c'"
    using rest unfolding fin_def
    by (auto simp: next_widget_has_next [OF l2] Let_def and_then_eq_Inr setPlainText_def)
  then obtain c5 where c5: "ev ?c4 (Suc i) = Inr c5" and rest5: "fin c5 = Inr c'"
    by blast
  have l4: "Suc i < length (widgets ?c4)" using l2 by simp
  have f5: "frame (Suc i) ?c4 c5" by (rule frameD [OF ev l4 c5])
  then have l5: "Suc i < length (widgets c5)" by (simp add: frame_def)
  have w4: "wframe (Suc i) ?g ?c4"
    by (rule wframe_upd [OF w2]) (simp add: wkept_def)
  have w5: "wframe (Suc i) ?g c5" by (rule wframe_trans [OF w4 frame_wframe [OF f5]])
  let ?c7 = "update_length_field c5 (Suc i)"
  have l7: "Suc i < length (widgets ?c7)" using l5 by (simp add: update_length_field_def)
  have w7: "wframe (Suc i) ?g ?c7"
    unfolding update_length_field_def by (rule wframe_upd [OF w5]) (simp add: wkept_def)
  have c': "c' = (if hex_view (widgets ?c7 ! Suc i) then view_hex E ?c7 (Suc i) else ?c7)"
    using rest5 l7 unfolding fin_def
    by (auto simp: next_widget_has_next [OF l5] next_widget_has_next [OF l7] Let_def)
  show ?thesis
  proof (cases "hex_view (widgets ?c7 ! Suc i)")
    case True
    have "wframe (Suc i) ?g (view_hex E ?c7 (Suc i))"
      unfolding view_hex_def by (rule wframe_upd [OF w7]) (simp add: wkept_def Let_def True)
    then show ?thesis using c' True by simp
  next
    case False
    then show ?thesis using c' w7 by simp
  qed
qed

lemma set_content_next_untouched:
  assumes ev: "frames ev" and i: "i < length (widgets c)"
    and r: "set_content_next ev E c i d = Inr c'"
  shows "untouched i c c'" and "Suc i < length (widgets c')"
proof -
  have w: "wframe (Suc i) (grow c i) c'" by (rule set_content_next_wframe [OF ev i r])
  show "untouched i c c'"
    by (rule untouched_trans [OF untouched_grow [OF i] wframe_Suc_untouched [OF w]])
  show "Suc i < length (widgets c')" using w by (simp add: wframe_def)
qed

lemma widgets_log_error [simp]: "widgets (log_error c e) = widgets c"
  by (simp add: log_error_def)

lemma logged_log_error [simp]: "logged (log_error c e) = logged c @ [e]"
  by (simp add: log_error_def)

lemma focus_log_error [simp]: "focus (log_error c e) = focus c"
  by (simp add: log_error_def)

lemma action_select_eq:
  assumes "i < length (widgets c)"
  shows "action_select E c i combo =
     (upd c i (select_widget E combo), select_runs combo (widgets c ! i))"
  using assms
  by (simp add: action_select_def fill_content_def select_widget_def select_runs_def
      upd_def Let_def split: option.splits)

lemma fill_content_fields [simp]:
  "text_readOnly (fill_content E w) = text_readOnly w"
  "codec_field (fill_content E w) = codec_field w"
  "codec_field_hidden (fill_content E w) = codec_field_hidden w"
  "text_styleSheet (fill_content E w) = text_styleSheet w"
  "hex_view (fill_content E w) = hex_view w"
  "current_pick (fill_content E w) = current_pick w"
  "current_combo (fill_content E w) = current_combo w"
  "combo_index (fill_content E w) = combo_index w"
  "text_plainText (fill_content E w) = text_plainText w"
  by (simp_all add: fill_content_def)

lemma select_widget_fields [simp]:
  "text_readOnly (select_widget E combo w) = text_readOnly w"
  "codec_field (select_widget E combo w) = codec_field w"
  "codec_field_hidden (select_widget E combo w) = codec_field_hidden w"
  "text_styleSheet (select_widget E combo w) = text_styleSheet w"
  "hex_view (select_widget E combo w) = hex_view w"
  "combo_index (select_widget E combo w) = combo_index w"
  by (simp_all add: select_widget_def split: option.splits)

lemma select_widget_None [simp]: "select_widget E None w = fill_content E w"
  by (simp add: select_widget_def)

lemma reset_combo_fields [simp]:
  "text_readOnly (reset_combo E w) = text_readOnly w"
  "codec_field (reset_combo E w) = codec_field w"
  "codec_field_hidden (reset_combo E w) = codec_field_hidden w"
  "text_styleSheet (reset_combo E w) = text_styleSheet w"
  "hex_view (reset_combo E w) = hex_view w"
  "current_combo (reset_combo E w) = current_combo w"
  "current_pick (reset_combo E w) = current_pick w"
  by (simp_all add: reset_combo_def split: option.splits)

lemma kept_fill_content [simp]: "kept w (fill_content E w)"
  by (simp add: kept_def wkept_def)

lemma kept_reset_combo [simp]: "kept w (reset_combo E w)"
  by (simp add: kept_def wkept_def)

lemma action_finish_eq:
  assumes i: "i < length (widgets c)"
  shows "action_finish E c i err =
     upd (upd (grow c i) i (reset_combo E)) (Suc i)
       (finish_next (current_pick (widgets c ! i)) err)"
proof -
  let ?c1 = "upd c i (reset_combo E)"
  have c1: "(case current_combo (widgets c ! i) of None \<Rightarrow> c
             | Some cb \<Rightarrow> if combo_index (widgets c ! i) cb = 0 then c
                 else fst (action_select E
                           (upd c i (\<lambda>w. w\<lparr>combo_index := (combo_index w)(cb := 0)\<rparr>))
                           i (Some cb))) = ?c1"
  proof (cases "current_combo (widgets c ! i)")
    case None
    then show ?thesis by (simp add: reset_combo_def upd_def)
  next
    case (Some cb)
    show ?thesis
    proof (cases "combo_index (widgets c ! i) cb = 0")
      case True
      then show ?thesis using Some by (simp add: reset_combo_def upd_def)
    next
      case False
      have l: "i < length (widgets (upd c i (\<lambda>w. w\<lparr>combo_index := (combo_index w)(cb := 0)\<rparr>)))"
        using i by simp
      have "fst (action_select E
                           (upd c i (\<lambda>w. w\<lparr>combo_index := (combo_index w)(cb := 0)\<rparr>))
                           i (Some cb))
            = upd (upd c i (\<lambda>w. w\<lparr>combo_index := (combo_index w)(cb := 0)\<rparr>)) i
                (select_widget E (Some cb))"
        unfolding action_select_eq [OF l] by simp
      also have "\<dots> = ?c1" using Some False i
        by (simp add: reset_combo_def select_widget_def upd_def)
      finally show ?thesis using Some False by simp
    qed
  qed
  have i1: "i < length (widgets ?c1)" using i by simp
  let ?g = "upd (grow c i) i (reset_combo E)"
  have g: "grow ?c1 i = ?g" using i by (simp add: grow_upd)
  have gl: "Suc i < length (widgets ?g)" using grow_has_next [OF i] by simp
  have nw: "\<And>c'. length (widgets c') = length (widgets ?g) \<Longrightarrow> next_widget c' i = (c', Suc i)"
    using gl by (simp add: next_widget_in grow_id)
  have pi: "current_pick (widgets ?g ! i) = current_pick (widgets c ! i)"
    using i gl by (simp add: grow_nth)
  show ?thesis
    unfolding action_finish_def c1 Let_def next_widget_in [OF i1] g
    using gl pi
    by (cases "current_pick (widgets c ! i)")
       (simp_all add: nw finish_next_def upd_def Let_def list_update_other_id)
qed

lemma action_finish_props:
  assumes i: "i < length (widgets c)"
  shows "length (widgets (action_finish E c i err)) = max (length (widgets c)) (i + 2)"
    and "take i (widgets (action_finish E c i err)) = take i (widgets c)"
    and "widgets (action_finish E c i err) ! i = reset_combo E (widgets c ! i)"
    and "logged (action_finish E c i err) = logged c"
    and "widgets (action_finish E c i err) ! Suc i =
           finish_next (current_pick (widgets c ! i)) err (widgets (grow c i) ! Suc i)"
    and "focus (action_finish E c i err) = focus c"
proof -
  have g: "Suc i < length (widgets (grow c i))" by (rule grow_has_next [OF i])
  show "length (widgets (action_finish E c i err)) = max (length (widgets c)) (i + 2)"
    using i by (simp add: action_finish_eq length_grow)
  show "take i (widgets (action_finish E c i err)) = take i (widgets c)"
    using i by (simp add: action_finish_eq take_grow)
  show "widgets (action_finish E c i err) ! i = reset_combo E (widgets c ! i)"
    using i g by (simp add: action_finish_eq grow_nth)
  show "logged (action_finish E c i err) = logged c"
    using i by (simp add: action_finish_eq)
  show "widgets (action_finish E c i err) ! Suc i =
           finish_next (current_pick (widgets c ! i)) err (widgets (grow c i) ! Suc i)"
    using i g by (simp add: action_finish_eq)
  show "focus (action_finish E c i err) = focus c"
    using i by (simp add: action_finish_eq)
qed

lemma action_finish_frame:
  assumes i: "i < length (widgets c)"
  shows "frame i c (action_finish E c i err)"
  using action_finish_props [OF i, of E err] i
  by (simp add: frame_def)

lemma action_eq:
  assumes "i < length (widgets c)"
  shows "action ev E c i combo =
     (if select_runs combo (widgets c ! i)
      then and_then (action_transform ev E (upd c i (select_widget E combo)) i)
             (\<lambda>(c2, err). Inr (action_finish E c2 i err))
      else Inr (upd c i (select_widget E combo)))"
  by (simp add: action_def action_select_eq [OF assms])

lemma action_Inr_cases:
  assumes i: "i < length (widgets c)" and r: "action ev E c i combo = Inr c'"
  shows "(\<not> select_runs combo (widgets c ! i) \<and> c' = upd c i (select_widget E combo))
       \<or> (select_runs combo (widgets c ! i) \<and>
           (\<exists>c2 err. action_transform ev E (upd c i (select_widget E combo)) i = Inr (c2, err)
              \<and> c' = action_finish E c2 i err))"
  using r unfolding action_eq [OF i]
  by (auto simp: and_then_eq_Inr split: if_splits)

text \<open>The transformer step leaves the widgets up to \<open>i\<close> as they are.\<close>

lemma ok_path_untouched:
  assumes ev: "frames ev" and i: "i < length (widgets c)"
    and r: "and_then (set_content_next ev E c i d) (\<lambda>c'. Inr (c', e0)) = Inr (c2, err)"
  shows "untouched i c c2"
proof -
  from r have s: "set_content_next ev E c i d = Inr c2"
    by (auto simp: and_then_eq_Inr)
  show ?thesis by (rule set_content_next_untouched(1) [OF ev i s])
qed

lemma set_error_next_untouched:
  assumes i: "i < length (widgets c)" and r: "set_error_next c i = Inr c'"
  shows "untouched i c c'"
  using set_error_next_props(1,2) [OF i r] by (simp add: untouched_def)

lemma fail_path_untouched:
  assumes ev: "frames ev" and i: "i < length (widgets c)"
    and r: "and_then (set_error_next (log_error c e) i) (\<lambda>c1.
            and_then (set_content_next ev E c1 i (D c1)) (\<lambda>c'. Inr (c', True))) = Inr (c2, err)"
  shows "untouched i c c2"
proof -
  from r obtain c1 where c1: "set_error_next (log_error c e) i = Inr c1"
    and s: "set_content_next ev E c1 i (D c1) = Inr c2"
    by (auto simp: and_then_eq_Inr)
  have il: "i < length (widgets (log_error c e))" using i by simp
  have u1: "untouched i (log_error c e) c1" by (rule set_error_next_untouched [OF il c1])
  then have u1': "untouched i c c1" by (simp add: untouched_def)
  have i1: "i < length (widgets c1)" using u1 by (simp add: untouched_def)
  have u2: "untouched i c1 c2" by (rule set_content_next_untouched(1) [OF ev i1 s])
  show ?thesis by (rule untouched_trans [OF u1' u2])
qed

lemma action_transform_untouched:
  assumes ev: "frames ev" and i: "i < length (widgets c)"
    and r: "action_transform ev E c i = Inr (c2, err)"
  shows "untouched i c c2"
  using r untouched_refl [OF i] unfolding action_transform_def Let_def
  by (auto split: option.splits if_splits prod.splits sum.splits
      dest!: fail_path_untouched [OF ev i] ok_path_untouched [OF ev i])

lemma action_frame:
  assumes ev: "frames ev" and i: "i < length (widgets c)"
    and r: "action ev E c i combo = Inr c'"
  shows "frame i (upd c i (select_widget E combo)) c'"
proof -
  let ?c1 = "upd c i (select_widget E combo)"
  have i1: "i < length (widgets ?c1)" using i by simp
  from action_Inr_cases [OF i r] show ?thesis
  proof (elim disjE conjE exE)
    assume "c' = ?c1"
    then show ?thesis using frame_refl [OF i1] by simp
  next
    fix c2 err
    assume t: "action_transform ev E ?c1 i = Inr (c2, err)" and c': "c' = action_finish E c2 i err"
    have u: "untouched i ?c1 c2" by (rule action_transform_untouched [OF ev i1 t])
    then have i2: "i < length (widgets c2)" by (simp add: untouched_def)
    show ?thesis unfolding c'
      by (rule frame_trans [OF untouched_frame [OF u] action_finish_frame [OF i2]])
  qed
qed

lemma action_None_frame:
  assumes ev: "frames ev" and i: "i < length (widgets c)"
    and r: "action ev E c i None = Inr c'"
  shows "frame i c c'"
proof -
  have "frame i c (upd c i (select_widget E None))"
    by (rule frame_upd [OF frame_refl [OF i]]) simp
  then show ?thesis using action_frame [OF ev i r] by (rule frame_trans)
qed

lemma and_then_assoc: "and_then (and_then m f) g = and_then m (\<lambda>x. and_then (f x) g)"
  by (cases m) simp_all

lemma field_content_changed_eq:
  "field_content_changed ev E c i =
     and_then (fcc_pre ev E c i) (\<lambda>c5.
       if focus c5 = Some i \<and> pick_truthy (current_pick (widgets c5 ! i))
       then action ev E c5 i None else Inr c5)"
  unfolding field_content_changed_def fcc_pre_def Let_def and_then_assoc and_then_Inr ..

lemma fcc_pre_frame:
  assumes ev: "frames ev" and i: "i < length (widgets c)"
    and r: "fcc_pre ev E c i = Inr c'"
  shows "frame i c c'"
proof -
  let ?c1 = "if action_panel_hidden (widgets c ! i)
                then upd c i (\<lambda>w. w\<lparr>action_panel_hidden := False\<rparr>) else c"
  have i1: "i < length (widgets ?c1)" using i by simp
  have f1: "frame i c ?c1" using i by (simp add: frame_def kept_def wkept_def)
  from r obtain c2 where c2: "(if has_next ?c1 i \<and> \<not> text_readOnly (widgets ?c1 ! i)
            then remove_next_widgets ?c1 i None 2
            else if has_next ?c1 i \<and> text_readOnly (widgets ?c1 ! i)
            then set_content_next ev E ?c1 i (ByteArray (content (widgets ?c1 ! i)))
            else Inr ?c1) = Inr c2"
    and c': "c' = update_readonly_field (update_length_field
                (if \<not> text_readOnly (widgets c2 ! i)
                        then (if \<not> hex_view (widgets c2 ! i)
                              then upd c2 i (\<lambda>w. w\<lparr>content := utf8 E (text_plainText w)\<rparr>)
                              else upd c2 i (\<lambda>w. w\<lparr>content := hex_content w\<rparr>))
                        else c2) i) i"
    unfolding fcc_pre_def Let_def by (auto simp: and_then_eq_Inr)
  have u2: "untouched i ?c1 c2"
  proof (cases "has_next ?c1 i")
    case False
    then have "c2 = ?c1" using c2 by (simp split: if_splits)
    then show ?thesis using untouched_refl [OF i1] by simp
  next
    case hn: True
    show ?thesis
    proof (cases "text_readOnly (widgets ?c1 ! i)")
      case True
      then have "set_content_next ev E ?c1 i (ByteArray (content (widgets ?c1 ! i))) = Inr c2"
        using c2 hn by (simp split: if_splits)
      then show ?thesis by (rule set_content_next_untouched(1) [OF ev i1])
    next
      case False
      then have rm: "remove_next_widgets ?c1 i None 2 = Inr c2"
        using c2 hn by (simp split: if_splits)
      have "widgets c2 = take (if i + 2 \<le> length (widgets ?c1) then max 1 (i + 2) else 1)
                        (widgets ?c1)"
        by (rule remove_next_widgets_props(1) [OF _ i1 rm]) simp
      moreover have "Suc i < length (widgets ?c1)"
        using hn i1 by (auto simp: has_next_def split: if_splits)
      ultimately show ?thesis by (simp add: untouched_def min_def)
    qed
  qed
  have f2: "frame i c c2" by (rule frame_trans [OF f1 untouched_frame [OF u2]])
  let ?c3 = "if \<not> text_readOnly (widgets c2 ! i)
                        then (if \<not> hex_view (widgets c2 ! i)
                              then upd c2 i (\<lambda>w. w\<lparr>content := utf8 E (text_plainText w)\<rparr>)
                              else upd c2 i (\<lambda>w. w\<lparr>content := hex_content w\<rparr>))
                        else c2"
  have f3: "frame i c ?c3"
    using f2 by (auto intro!: frame_upd simp: kept_def wkept_def)
  have f4: "frame i c (update_length_field ?c3 i)"
    unfolding update_length_field_def
    by (rule frame_upd [OF f3]) (simp add: kept_def wkept_def)
  show ?thesis unfolding c' update_readonly_field_def
    by (rule frame_upd [OF f4]) (simp add: kept_def wkept_def)
qed

lemma field_content_changed_frame:
  assumes ev: "frames ev" and i: "i < length (widgets c)"
    and r: "field_content_changed ev E c i = Inr c'"
  shows "frame i c c'"
proof -
  from r obtain c5 where p: "fcc_pre ev E c i = Inr c5"
    and a: "(if focus c5 = Some i \<and> pick_truthy (current_pick (widgets c5 ! i))
       then action ev E c5 i None else Inr c5) = Inr c'"
    unfolding field_content_changed_eq by (auto simp: and_then_eq_Inr)
  have f5: "frame i c c5" by (rule fcc_pre_frame [OF ev i p])
  then have i5: "i < length (widgets c5)" by (simp add: frame_def)
  show ?thesis
  proof (cases "focus c5 = Some i \<and> pick_truthy (current_pick (widgets c5 ! i))")
    case True
    then have "action ev E c5 i None = Inr c'" using a by simp
    then have "frame i c5 c'" by (rule action_None_frame [OF ev i5])
    with f5 show ?thesis by (rule frame_trans)
  next
    case False
    then show ?thesis using a f5 by auto
  qed
qed

lemma frames_field_content_changed: "frames ev \<Longrightarrow> frames (field_content_changed ev E)"
  unfolding frames_def [of "field_content_changed ev E"]
  using field_content_changed_frame by blast

lemma frames_textChanged: "frames (textChanged n E)"
proof (induction n)
  case 0
  show ?case by (simp add: frames_def)
next
  case (Suc n)
  then show ?case by (simp add: frames_field_content_changed)
qed

lemma char_of_ascii [simp]: "map char_of (ascii s) = s"
  by (induction s) (simp_all add: ascii_def)

lemma ascii_Nil [simp]: "ascii [] = []"
  by (simp add: ascii_def)

lemmas model_defs =
  action_def action_select_def action_transform_def action_finish_def
  EncoderWidget_init_def DeenWidget_init_def upd_def currentText_def combo_items_def
  item0_text_def set_error_next_def set_content_next_def next_widget_def has_next_def
  content_set_def setPlainText_def log_error_def remove_next_widgets_def remove_loop.simps
  update_length_field_def update_readonly_field_def view_hex_def view_text_def
  field_content_changed_def clear_content_def move_content_to_root_def set_root_content_def
  user_edit_text_def user_edit_hex_def user_select_def focus_field_def
  pick_truthy_def data_truthy_def printable_def and_then_def Let_def
  result_widgets_def result_chain_def root_chain_def stage_error_def textChanged.simps

declare textChanged.simps [simp del]


lemma settle_fields [simp]:
  "text_readOnly (settle E w) = text_readOnly w"
  "hex_view (settle E w) = hex_view w"
  "text_styleSheet (settle E w) = text_styleSheet w"
  "codec_field (settle E w) = codec_field w"
  "codec_field_hidden (settle E w) = codec_field_hidden w"
  "current_pick (settle E w) = current_pick w"
  "current_combo (settle E w) = current_combo w"
  "text_plainText (settle E w) = text_plainText w"
  "hex_content (settle E w) = hex_content w"
  by (simp_all add: settle_def Let_def)







lemma set_content_next_no_budget:
  assumes i: "i < length (widgets c)"
  shows "\<exists>e. set_content_next (textChanged 0 E) E c i d = Inl e"
proof -
  have g: "Suc i < length (widgets (grow c i))" by (rule grow_has_next [OF i])
  show ?thesis
    unfolding set_content_next_def next_widget_in [OF i] Let_def prod.case
    by (cases "content_set (textChanged 0 E) E (grow c i) (Suc i)
          (case d of Bytes b \<Rightarrow> ByteArray b | Str s \<Rightarrow> ByteArray (utf8 E s)
           | ByteArray b \<Rightarrow> ByteArray b | NoneVal \<Rightarrow> NoneVal)")
       (simp_all add: setPlainText_def textChanged.simps split: prod.splits)
qed

lemma stored_fields [simp]:
  "text_styleSheet (stored E b w) = text_styleSheet w"
  "codec_field (stored E b w) = codec_field w"
  "codec_field_hidden (stored E b w) = codec_field_hidden w"
  "hex_view (stored E b w) = hex_view w"
  "current_pick (stored E b w) = current_pick w"
  "current_combo (stored E b w) = current_combo w"
  by (simp_all add: stored_def Let_def)



lemma retexted_fields [simp]:
  "text_styleSheet (retexted E w) = text_styleSheet w"
  "codec_field (retexted E w) = codec_field w"
  "codec_field_hidden (retexted E w) = codec_field_hidden w"
  "hex_view (retexted E w) = hex_view w"
  "current_pick (retexted E w) = current_pick w"
  "current_combo (retexted E w) = current_combo w"
  "text_readOnly (retexted E w) = text_readOnly w"
  by (simp_all add: retexted_def)



lemma receive_fields [simp]:
  "text_styleSheet (receive E b w) = text_styleSheet w"
  "codec_field (receive E b w) = codec_field w"
  "codec_field_hidden (receive E b w) = codec_field_hidden w"
  "hex_view (receive E b w) = hex_view w"
  "current_pick (receive E b w) = current_pick w"
  "current_combo (receive E b w) = current_combo w"
  by (simp_all add: receive_def hex_shown_def Let_def)



lemma source_content_fill: "content (fill_content E w) = source_content E w"
  by (simp add: fill_content_def source_content_def)

lemma content_select_widget [simp]:
  "content (select_widget E combo w) = source_content E w"
  by (simp add: select_widget_def source_content_fill split: option.splits)



lemma finish_next_fields [simp]:
  "content (finish_next pick err w) = content w"
  "text_readOnly (finish_next pick err w) = text_readOnly w"
  "text_styleSheet (finish_next pick True w) = text_styleSheet w"
  "text_styleSheet (finish_next pick False w) = ''border: none;''"
  by (simp_all add: finish_next_def Let_def)


lemma red_fields [simp]:
  "text_readOnly (red w) = text_readOnly w"
  "hex_view (red w) = hex_view w"
  "text_styleSheet (red w) = ''border: 2px solid red;''"
  by (simp_all add: red_def)


lemma bytes_of_eq_None: "bytes_of E d = None \<longleftrightarrow> d = NoneVal"
  by (cases d) (simp_all add: bytes_of_def)








section \<open>The properties of the chain\<close>









text \<open>
  \<^bold>\<open>C2\<close>, as amended. When the OpenSSL module is missing, an action with the pick
  \<open>X509Certificate\<close> runs no transformer and reports nothing: it returns, nothing is
  logged, the next widget is created if there was none and keeps the content it had, and its
  border is set to \<open>border: none;\<close>, not to the error border. This holds whatever a
  delivery of \<open>textChanged\<close> would do, since the action sets no text.
\<close>

theorem unavailable_operation_skipped:
  assumes "i < length (widgets c)"
    and "combo_index (widgets c ! i) cb \<noteq> 0"
    and "currentText E cb (combo_index (widgets c ! i) cb) = ''X509Certificate''"
    and "''X509Certificate'' \<notin> set (ENCODINGS E)"
    and "''X509Certificate'' \<notin> set (COMPRESSIONS E)"
    and "''X509Certificate'' \<notin> set (HASHS E)"
    and "\<not> crypto E"
  shows "\<exists>c'. action ev E c i (Some cb) = Inr c'
     \<and> length (widgets c') = max (length (widgets c)) (i + 2)
     \<and> text_styleSheet (widgets c' ! (i + 1)) = ''border: none;''
     \<and> \<not> stage_error (widgets c' ! (i + 1))
     \<and> content (widgets c' ! (i + 1)) = content (widgets (grow c i) ! (i + 1))
     \<and> logged c' = logged c"
proof -
  let ?c1 = "upd c i (select_widget E (Some cb))"
  have i1: "i < length (widgets ?c1)" using assms(1) by simp
  have runs: "select_runs (Some cb) (widgets c ! i)"
    using assms(2) by (simp add: select_runs_def)
  have pick: "current_pick (widgets ?c1 ! i) = Some ''X509Certificate''"
    using assms(1,2,3) by (simp add: select_widget_def)
  have t: "action_transform ev E ?c1 i = Inr (?c1, False)"
    unfolding action_transform_def Let_def pick using assms(4,5,6,7) by simp
  have a: "action ev E c i (Some cb) = Inr (action_finish E ?c1 i False)"
    by (simp add: action_eq [OF assms(1)] runs t)
  note f = action_finish_props [OF i1, of E False]
  have g: "widgets (grow ?c1 i) ! Suc i = widgets (grow c i) ! Suc i"
    using assms(1) grow_has_next [OF assms(1)] by (simp add: grow_upd)
  have s: "text_styleSheet (widgets (action_finish E ?c1 i False) ! Suc i) = ''border: none;''"
    unfolding f(5) by (simp add: finish_next_def Let_def)
  have ct: "content (widgets (action_finish E ?c1 i False) ! Suc i)
              = content (widgets (grow c i) ! Suc i)"
    unfolding f(5) g by (simp add: finish_next_def Let_def)
  show ?thesis
    using a f(1) f(4) s ct by (simp add: stage_error_def)
qed

text \<open>
  Witness for C2: the root holds \<open>abc\<close>, entry 1 of the miscellaneous combo box
  (\<open>X509Certificate\<close>) is chosen, and the OpenSSL module is missing.
\<close>

theorem unavailable_operation_skipped_witness:
  "\<exists>c'. action (textChanged 0 test_env_no_crypto) test_env_no_crypto
          (root_chain ''abc'' MiscCombo 1) 0 (Some MiscCombo) = Inr c'
     \<and> length (widgets c') = max (length (widgets (root_chain ''abc'' MiscCombo 1))) (0 + 2)
     \<and> text_styleSheet (widgets c' ! (0 + 1)) = ''border: none;''
     \<and> \<not> stage_error (widgets c' ! (0 + 1))
     \<and> content (widgets c' ! (0 + 1))
         = content (widgets (grow (root_chain ''abc'' MiscCombo 1) 0) ! (0 + 1))
     \<and> logged c' = logged (root_chain ''abc'' MiscCombo 1)"
proof -
  have h1: "0 < length (widgets (root_chain ''abc'' MiscCombo 1))"
    by (simp add: model_defs)
  have h2: "combo_index (widgets (root_chain ''abc'' MiscCombo 1) ! 0) MiscCombo \<noteq> 0"
    by (simp add: model_defs)
  have h3: "currentText test_env_no_crypto MiscCombo
              (combo_index (widgets (root_chain ''abc'' MiscCombo 1) ! 0) MiscCombo)
            = ''X509Certificate''"
    by (simp add: test_env_no_crypto_def test_env_def model_defs)
  have h4: "''X509Certificate'' \<notin> set (ENCODINGS test_env_no_crypto)"
    by (simp add: test_env_no_crypto_def test_env_def)
  have h5: "''X509Certificate'' \<notin> set (COMPRESSIONS test_env_no_crypto)"
    by (simp add: test_env_no_crypto_def test_env_def)
  have h6: "''X509Certificate'' \<notin> set (HASHS test_env_no_crypto)"
    by (simp add: test_env_no_crypto_def test_env_def)
  have h7: "\<not> crypto test_env_no_crypto"
    by (simp add: test_env_no_crypto_def test_env_def)
  show ?thesis by (rule unavailable_operation_skipped [OF h1 h2 h3 h4 h5 h6 h7])
qed

text \<open>
  Counterexample to C2 as stated: in the run of the witness the action returns with two
  widgets, neither of which shows the error border, and nothing is logged.
\<close>

theorem unavailable_operation_counterexample:
  "map stage_error (result_widgets (action (textChanged 0 test_env_no_crypto) test_env_no_crypto
          (root_chain ''abc'' MiscCombo 1) 0 (Some MiscCombo))) = [False, False]
   \<and> logged (result_chain (action (textChanged 0 test_env_no_crypto) test_env_no_crypto
          (root_chain ''abc'' MiscCombo 1) 0 (Some MiscCombo))) = []"
  by (simp add: test_env_no_crypto_def test_env_def model_defs)

text \<open>
  \<^bold>\<open>C8\<close>. \<open>clear_content\<close> on a derived widget ends in
  \<open>remove_next_widgets(widget=widget)\<close> with the offset 0, whose loop pops widgets
  until the length of the list equals the position of the widget: the widget itself is
  removed with its followers. On the chain of three widgets, clearing the widget at
  position 1 leaves the root alone.
\<close>

theorem clear_derived_stage_removes_it:
  "map content (widgets three_stage_chain) = [''abc'', ''cba'', ''d41d8cd9'']
   \<and> map content (result_widgets
         (clear_content (textChanged (Suc 0) test_env) three_stage_chain 1 None)) = [''abc'']"
  by (simp add: three_stage_chain_def model_defs)




text \<open>
  \<^bold>\<open>C10\<close>. \<open>previous()\<close> returns the widget it is called on, for the root and for every
  other widget: the guard compares the \<open>bool\<close> returned by \<open>has_previous()\<close> with the
  widget, which is never equal, so the first \<open>return self\<close> is always taken and the loop
  over the list is never reached.
\<close>

theorem previous_returns_self: "previous c i = Some i"
  by (simp add: previous_def py_eq_def)

end
